theory Spec2Isabelle
  imports
    Complex_Main
    "HOL-Library.List_Lexorder"
    "HOL-Library.Product_Lexorder"
    "HOL-Library.Sublist"
begin

section \<open>Python values used by the exporters\<close>

text \<open>
  A Python \<open>str\<close> is a sequence of Unicode code points, so it is a list of naturals here;
  Isabelle's \<open>char\<close> is a byte and cannot hold the placeholder U+4E0D U+660E or the
  en-dash U+2013 that the scripts emit. The order on \<open>pystr\<close> (HOL-Library.List_Lexorder)
  is the lexicographic order on code points, which is how Python compares strings, and
  the order on tuples (HOL-Library.Product_Lexorder) is lexicographic, as Python's is.
\<close>

type_synonym pystr = "nat list"

definition ascii :: "string \<Rightarrow> pystr" where
  "ascii s = map of_char s"

text \<open>The exceptions that the modelled code can raise.\<close>

datatype error = ValueError | OverflowError

text \<open>
  A numeric memory size is a Python \<open>int\<close> or \<open>float\<close>. \<open>Finite q\<close> is a number with
  the exact value \<open>q\<close> (every int and every finite double is a rational); the three
  non-finite doubles are separate constructors.
\<close>

datatype pyfloat = Finite rat | PosInf | NegInf | NaN

text \<open>\<open>str.strip()\<close> removes the code points for which \<open>str.isspace\<close> holds.\<close>

definition is_space :: "nat \<Rightarrow> bool" where
  "is_space c \<longleftrightarrow>
     (9 \<le> c \<and> c \<le> 13) \<or> (28 \<le> c \<and> c \<le> 32) \<or> c = 133 \<or> c = 160 \<or> c = 5760 \<or>
     (8192 \<le> c \<and> c \<le> 8202) \<or> c = 8232 \<or> c = 8233 \<or> c = 8239 \<or> c = 8287 \<or> c = 12288"

definition strip :: "pystr \<Rightarrow> pystr" where
  "strip s = rev (dropWhile is_space (rev (dropWhile is_space s)))"

text \<open>\<open>s.rstrip(c)\<close> for a one-character argument.\<close>

definition rstrip :: "nat \<Rightarrow> pystr \<Rightarrow> pystr" where
  "rstrip c s = rev (dropWhile (\<lambda>x. x = c) (rev s))"

text \<open>\<open>x or d\<close> for an optional string: \<open>None\<close> and the empty string are falsy.\<close>

definition str_or :: "pystr option \<Rightarrow> pystr \<Rightarrow> pystr" where
  "str_or x d = (case x of None \<Rightarrow> d | Some s \<Rightarrow> if s = [] then d else s)"

text \<open>\<open>m in n\<close> on strings: \<open>m\<close> occurs in \<open>n\<close> as a contiguous substring.\<close>

fun str_in :: "pystr \<Rightarrow> pystr \<Rightarrow> bool" where
  "str_in m [] = (m = [])"
| "str_in m (c # cs) = (prefix m (c # cs) \<or> str_in m cs)"

text \<open>
  \<open>str.casefold()\<close> replaces every code point by its full case folding, one code point
  at a time. The folding table belongs to the Unicode database, not to this repository,
  so it is the parameter \<open>fold_cp\<close>.
\<close>

definition casefold :: "(nat \<Rightarrow> pystr) \<Rightarrow> pystr \<Rightarrow> pystr" where
  "casefold fold_cp s = concat (map fold_cp s)"

text \<open>The folding of the ASCII range, used to evaluate examples.\<close>

definition ascii_fold :: "nat \<Rightarrow> pystr" where
  "ascii_fold c = (if 65 \<le> c \<and> c \<le> 90 then [c + 32] else [c])"

text \<open>\<open>str.lower()\<close> on ASCII strings, used to evaluate examples.\<close>

definition ascii_lower :: "pystr \<Rightarrow> pystr" where
  "ascii_lower s = map (\<lambda>c. if 65 \<le> c \<and> c \<le> 90 then c + 32 else c) s"

text \<open>\<open>sep.join(xs)\<close>.\<close>

fun join :: "pystr \<Rightarrow> pystr list \<Rightarrow> pystr" where
  "join sep [] = []"
| "join sep [x] = x"
| "join sep (x # y # ys) = x @ sep @ join sep (y # ys)"

text \<open>\<open>d.setdefault(k, v)\<close> on an insertion-ordered dictionary, kept as an association list.\<close>

definition setdefault :: "('k \<times> 'v) list \<Rightarrow> 'k \<Rightarrow> 'v \<Rightarrow> ('k \<times> 'v) list" where
  "setdefault d k v = (case map_of d k of None \<Rightarrow> d @ [(k, v)] | Some _ \<Rightarrow> d)"

section \<open>Number formatting\<close>

text \<open>\<open>round(x)\<close> on a finite number: the nearest integer, ties to the even one.\<close>

definition round_half_even :: "rat \<Rightarrow> int" where
  "round_half_even q =
     (let f = \<lfloor>q\<rfloor>; d = q - of_int f
      in if d < 1 / 2 then f else if 1 / 2 < d then f + 1 else if even f then f else f + 1)"

fun str_nat :: "nat \<Rightarrow> pystr" where
  "str_nat n = (if n < 10 then [48 + n] else str_nat (n div 10) @ [48 + n mod 10])"

text \<open>\<open>str(i)\<close> of an integer, as an f-string renders it.\<close>

definition str_int :: "int \<Rightarrow> pystr" where
  "str_int i = (if i < 0 then 45 # str_nat (nat (- i)) else str_nat (nat i))"

text \<open>
  \<open>f"{x:.3f}"\<close> on a finite number: the exact value rounded to three decimals (ties to
  even), printed with the minus sign of \<open>x\<close>, the integer digits, a point and exactly
  three fraction digits.
\<close>

definition format_3f :: "rat \<Rightarrow> pystr" where
  "format_3f x =
     (let n = nat (round_half_even (\<bar>x\<bar> * 1000))
      in (if x < 0 then [45] else []) @ str_nat (n div 1000) @
         [46, 48 + n div 100 mod 10, 48 + n div 10 mod 10, 48 + n mod 10])"

text \<open>The double that the literal \<open>1e-9\<close> denotes.\<close>

definition float_1e_9 :: rat where
  "float_1e_9 = 4835703278458517 / 2 ^ 82"

section \<open>The GPU exporters (am\_atgpu.py and nvgpu.py)\<close>

text \<open>
  \<open>AmdAtiGpuRow\<close> and \<open>NvidiaGpuRow\<close> are frozen dataclasses with the same three string
  fields and the same \<open>to_line\<close>; one record stands for both.
\<close>

record gpu_row =
  name :: pystr
  memory_capacity :: pystr
  memory_type :: pystr

type_synonym AmdAtiGpuRow = gpu_row
type_synonym NvidiaGpuRow = gpu_row

definition to_line :: "gpu_row \<Rightarrow> pystr" where
  "to_line r = [34] @ name r @ [34, 32, 34] @ memory_capacity r @ [32] @ memory_type r @ [34]"

text \<open>The fields of dbgpu's \<open>GPUSpecification\<close> that the exporters read.\<close>

record gpu_spec =
  spec_manufacturer :: pystr
  spec_name :: "pystr option"
  spec_memory_size_gb :: "pyfloat option"
  spec_memory_type :: "pystr option"

text \<open>
  \<open>_format_memory_capacity\<close> of am\_atgpu.py. On a finite number every step is exact:
  the comparisons, \<open>round\<close>, and the subtraction \<open>memory_size_gb - rounded\<close>, whose two
  operands are within a factor of two of each other or one of them is zero. \<open>nan <= 0\<close>
  is false and \<open>round(nan)\<close> raises ValueError; \<open>round(inf)\<close> raises OverflowError.
\<close>

definition am_atgpu_format_memory_capacity :: "pyfloat option \<Rightarrow> error + pystr" where
  "am_atgpu_format_memory_capacity memory_size_gb =
     (case memory_size_gb of
        None \<Rightarrow> Inr [19981, 26126]
      | Some NaN \<Rightarrow> Inl ValueError
      | Some NegInf \<Rightarrow> Inr (ascii ''0GB'')
      | Some PosInf \<Rightarrow> Inl OverflowError
      | Some (Finite x) \<Rightarrow>
          if x \<le> 0 then Inr (ascii ''0GB'')
          else let rounded = round_half_even x
               in if \<bar>x - of_int rounded\<bar> < float_1e_9
                  then Inr (str_int rounded @ ascii ''GB'')
                  else Inr (rstrip 46 (rstrip 48 (format_3f x)) @ ascii ''GB''))"

text \<open>\<open>_format_memory_capacity\<close> of nvgpu.py.\<close>

definition nvgpu_format_memory_capacity :: "pyfloat option \<Rightarrow> error + pystr" where
  "nvgpu_format_memory_capacity memory_size_gb =
     (case memory_size_gb of
        None \<Rightarrow> Inr [19981, 26126]
      | Some NaN \<Rightarrow> Inl ValueError
      | Some NegInf \<Rightarrow> Inr (ascii ''0GB'')
      | Some PosInf \<Rightarrow> Inl OverflowError
      | Some (Finite x) \<Rightarrow>
          if x \<le> 0 then Inr (ascii ''0GB'')
          else let rounded = round_half_even x
               in if \<bar>x - of_int rounded\<bar> < float_1e_9
                  then Inr (str_int rounded @ ascii ''GB'')
                  else Inr (rstrip 46 (rstrip 48 (format_3f x)) @ ascii ''GB''))"

definition am_atgpu_row_from_spec :: "gpu_spec \<Rightarrow> error + AmdAtiGpuRow" where
  "am_atgpu_row_from_spec spec =
     (let name = strip (str_or (spec_name spec) [])
      in case am_atgpu_format_memory_capacity (spec_memory_size_gb spec) of
           Inl e \<Rightarrow> Inl e
         | Inr mem_capacity \<Rightarrow>
             let mem_type = strip (str_or (spec_memory_type spec) [19981, 26126])
             in Inr \<lparr>name = name, memory_capacity = mem_capacity, memory_type = mem_type\<rparr>)"

definition nvgpu_row_from_spec :: "gpu_spec \<Rightarrow> error + NvidiaGpuRow" where
  "nvgpu_row_from_spec spec =
     (let name = strip (str_or (spec_name spec) [])
      in case nvgpu_format_memory_capacity (spec_memory_size_gb spec) of
           Inl e \<Rightarrow> Inl e
         | Inr mem_capacity \<Rightarrow>
             let mem_type = strip (str_or (spec_memory_type spec) [19981, 26126])
             in Inr \<lparr>name = name, memory_capacity = mem_capacity, memory_type = mem_type\<rparr>)"

definition am_atgpu_console_markers :: "pystr list" where
  "am_atgpu_console_markers =
     [ascii ''playstation'', ascii ''psx'', ascii ''xbox'', ascii ''switch'',
      ascii ''nintendo'', ascii ''xenos'']"

definition nvgpu_console_markers :: "pystr list" where
  "nvgpu_console_markers =
     [ascii ''playstation'', ascii ''psx'', ascii ''xbox'', ascii ''switch'',
      ascii ''nintendo'', ascii ''tegra'']"

definition am_atgpu_is_console_gpu_name :: "(nat \<Rightarrow> pystr) \<Rightarrow> pystr \<Rightarrow> bool" where
  "am_atgpu_is_console_gpu_name fold_cp nm =
     (let n = casefold fold_cp nm in list_ex (\<lambda>m. str_in m n) am_atgpu_console_markers)"

definition nvgpu_is_console_gpu_name :: "(nat \<Rightarrow> pystr) \<Rightarrow> pystr \<Rightarrow> bool" where
  "nvgpu_is_console_gpu_name fold_cp nm =
     (let n = casefold fold_cp nm in list_ex (\<lambda>m. str_in m n) nvgpu_console_markers)"

text \<open>
  The generators, as the list of rows they yield; an exception raised while a record is
  normalised ends the run, so it is the result.
\<close>

fun iter_amd_ati_gpu_rows :: "(nat \<Rightarrow> pystr) \<Rightarrow> gpu_spec list \<Rightarrow> error + AmdAtiGpuRow list" where
  "iter_amd_ati_gpu_rows fold_cp [] = Inr []"
| "iter_amd_ati_gpu_rows fold_cp (spec # specs) =
     (if spec_manufacturer spec \<notin> {ascii ''AMD'', ascii ''ATI''}
      then iter_amd_ati_gpu_rows fold_cp specs
      else case am_atgpu_row_from_spec spec of
             Inl e \<Rightarrow> Inl e
           | Inr row \<Rightarrow>
               if name row = [] then iter_amd_ati_gpu_rows fold_cp specs
               else if am_atgpu_is_console_gpu_name fold_cp (name row)
               then iter_amd_ati_gpu_rows fold_cp specs
               else (case iter_amd_ati_gpu_rows fold_cp specs of
                       Inl e \<Rightarrow> Inl e
                     | Inr rows \<Rightarrow> Inr (row # rows)))"

fun iter_nvidia_gpu_rows :: "(nat \<Rightarrow> pystr) \<Rightarrow> gpu_spec list \<Rightarrow> error + NvidiaGpuRow list" where
  "iter_nvidia_gpu_rows fold_cp [] = Inr []"
| "iter_nvidia_gpu_rows fold_cp (spec # specs) =
     (if spec_manufacturer spec \<noteq> ascii ''NVIDIA''
      then iter_nvidia_gpu_rows fold_cp specs
      else case nvgpu_row_from_spec spec of
             Inl e \<Rightarrow> Inl e
           | Inr row \<Rightarrow>
               if name row = [] then iter_nvidia_gpu_rows fold_cp specs
               else if nvgpu_is_console_gpu_name fold_cp (name row)
               then iter_nvidia_gpu_rows fold_cp specs
               else (case iter_nvidia_gpu_rows fold_cp specs of
                       Inl e \<Rightarrow> Inl e
                     | Inr rows \<Rightarrow> Inr (row # rows)))"

text \<open>
  \<open>build_unique_sorted_rows\<close>: \<open>row_key\<close> is the dictionary key of a row and
  \<open>sort_key_of\<close> is the local function \<open>sort_key\<close>. The function runs the dictionary
  loop and then \<open>sorted\<close>, which is a stable sort by the key (\<open>sort_key\<close> of the list
  library is the stable insertion sort). \<open>str.lower\<close> is the parameter \<open>lower\<close>: its
  result depends on the Unicode database.
\<close>

definition row_key :: "gpu_row \<Rightarrow> pystr \<times> pystr \<times> pystr" where
  "row_key r = (name r, memory_capacity r, memory_type r)"

definition sort_key_of :: "(pystr \<Rightarrow> pystr) \<Rightarrow> gpu_row \<Rightarrow> pystr \<times> pystr \<times> pystr" where
  "sort_key_of lower r = (lower (name r), memory_capacity r, memory_type r)"

definition am_atgpu_build_unique_sorted_rows ::
  "(pystr \<Rightarrow> pystr) \<Rightarrow> AmdAtiGpuRow list \<Rightarrow> AmdAtiGpuRow list" where
  "am_atgpu_build_unique_sorted_rows lower rows =
     (let unique = fold (\<lambda>r d. setdefault d (row_key r) r) rows []
      in sort_key (sort_key_of lower) (map snd unique))"

definition nvgpu_build_unique_sorted_rows ::
  "(pystr \<Rightarrow> pystr) \<Rightarrow> NvidiaGpuRow list \<Rightarrow> NvidiaGpuRow list" where
  "nvgpu_build_unique_sorted_rows lower rows =
     (let unique = fold (\<lambda>r d. setdefault d (row_key r) r) rows []
      in sort_key (sort_key_of lower) (map snd unique))"

text \<open>
  \<open>write_rows\<close>: the file system is a map from paths to the text written; the function
  returns the new file system and the number of lines. Directories are not modelled.
\<close>

definition am_atgpu_write_rows ::
  "(pystr \<rightharpoonup> pystr) \<Rightarrow> pystr \<Rightarrow> AmdAtiGpuRow list \<Rightarrow> (pystr \<rightharpoonup> pystr) \<times> nat" where
  "am_atgpu_write_rows fs out_path rows =
     (let lines = map to_line rows
      in (fs(out_path \<mapsto> join [10] lines @ (if lines \<noteq> [] then [10] else [])), length lines))"

definition nvgpu_write_rows ::
  "(pystr \<rightharpoonup> pystr) \<Rightarrow> pystr \<Rightarrow> NvidiaGpuRow list \<Rightarrow> (pystr \<rightharpoonup> pystr) \<times> nat" where
  "nvgpu_write_rows fs out_path rows =
     (let lines = map to_line rows
      in (fs(out_path \<mapsto> join [10] lines @ (if lines \<noteq> [] then [10] else [])), length lines))"

section \<open>The CPU exporter (intcpu.py)\<close>

text \<open>
  The frequency formatter computes with Python floats. A float here is a finite double
  with its exact value, or the negative zero, which equals zero but prints with a sign.
  Amounts that \<open>float()\<close> reads as an infinity or as a NaN are outside this model.
\<close>

datatype ffloat = Num rat | NegZero

definition fval :: "ffloat \<Rightarrow> rat" where
  "fval x = (case x of Num q \<Rightarrow> q | NegZero \<Rightarrow> 0)"

text \<open>
  The float operations of the interpreter that the formatter calls: \<open>float(s)\<close> (\<open>None\<close>
  when it raises ValueError), the product \<open>a * b\<close> and \<open>round(x, 3)\<close>. They round to
  doubles and read the interpreter's number syntax, so they are parameters of the model.
\<close>

record float_ops =
  py_float :: "pystr \<Rightarrow> ffloat option"
  py_mul :: "ffloat \<Rightarrow> ffloat \<Rightarrow> ffloat"
  py_round3 :: "ffloat \<Rightarrow> ffloat"

text \<open>
  \<open>UNIT_TO_GHZ\<close>: the values are the doubles that \<open>1.0\<close>, \<open>1.0 / 1000\<close>,
  \<open>1.0 / 1_000_000\<close> and \<open>1.0 / 1_000_000_000\<close> evaluate to.
\<close>

definition UNIT_TO_GHZ :: "(pystr \<times> ffloat) list" where
  "UNIT_TO_GHZ =
     [(ascii ''http://www.wikidata.org/entity/Q3276763'', Num 1),
      (ascii ''http://www.wikidata.org/entity/Q732707'', Num (1152921504606847 / 2 ^ 60)),
      (ascii ''http://www.wikidata.org/entity/Q2143992'', Num (4722366482869645 / 2 ^ 72)),
      (ascii ''http://www.wikidata.org/entity/Q39369'', Num (4835703278458517 / 2 ^ 82))]"

text \<open>\<open>s.split(sep)\<close> for a one-character separator: empty pieces are kept.\<close>

fun split_on :: "nat \<Rightarrow> pystr \<Rightarrow> pystr list" where
  "split_on sep [] = [[]]"
| "split_on sep (c # cs) =
     (if c = sep then [] # split_on sep cs
      else (case split_on sep cs of [] \<Rightarrow> [[c]] | p # ps \<Rightarrow> (c # p) # ps))"

text \<open>\<open>f"{x:.3f}"\<close> on a float, and \<open>trim_float\<close>.\<close>

definition format_3f_float :: "ffloat \<Rightarrow> pystr" where
  "format_3f_float x = (case x of Num q \<Rightarrow> format_3f q | NegZero \<Rightarrow> ascii ''-0.000'')"

definition trim_float :: "ffloat \<Rightarrow> pystr" where
  "trim_float x = (let s = format_3f_float x; s = rstrip 46 (rstrip 48 s) in s)"

text \<open>
  \<open>set(xs)\<close> on floats keeps the first of the elements that compare equal; \<open>sorted\<close> of
  the set orders them by value. The elements of the set have distinct values, so the
  sorted list does not depend on the order in which the set is iterated.
\<close>

definition set_add :: "ffloat \<Rightarrow> ffloat list \<Rightarrow> ffloat list" where
  "set_add x acc = (if fval x \<in> fval ` set acc then acc else acc @ [x])"

definition py_set :: "ffloat list \<Rightarrow> ffloat list" where
  "py_set xs = fold set_add xs []"

definition sorted_floats :: "ffloat list \<Rightarrow> ffloat list" where
  "sorted_floats xs = sort_key fval xs"

text \<open>
  The body of the loop of \<open>parse_freqs_to_str\<close>, on the pair of \<open>ghz_vals\<close> and
  \<open>unknown_parts\<close>. \<open>part.split("|", 1)\<close> is taken after the test that the bar occurs.
\<close>

definition parse_part ::
  "float_ops \<Rightarrow> pystr \<Rightarrow> ffloat list \<times> pystr list \<Rightarrow> ffloat list \<times> pystr list" where
  "parse_part ops part st =
     (case st of (ghz_vals, unknown_parts) \<Rightarrow>
        if strip part = [] then (ghz_vals, unknown_parts)
        else if 124 \<notin> set part then (ghz_vals, unknown_parts @ [part])
        else let amount_s = takeWhile (\<lambda>c. c \<noteq> 124) part;
                 unit = tl (dropWhile (\<lambda>c. c \<noteq> 124) part)
             in case py_float ops (filter (\<lambda>c. c \<noteq> 43) amount_s) of
                  None \<Rightarrow> (ghz_vals, unknown_parts @ [part])
                | Some amount \<Rightarrow>
                    (case map_of UNIT_TO_GHZ unit of
                       None \<Rightarrow> (ghz_vals, unknown_parts @ [part])
                     | Some mul \<Rightarrow> (ghz_vals @ [py_mul ops amount mul], unknown_parts)))"

definition parse_freqs_to_str :: "float_ops \<Rightarrow> pystr \<Rightarrow> pystr" where
  "parse_freqs_to_str ops freqs_raw =
     (if freqs_raw = [] then [63]
      else case fold (parse_part ops) (split_on 59 freqs_raw) ([], []) of
        (ghz_vals, unknown_parts) \<Rightarrow>
          if ghz_vals \<noteq> [] then
            let ghz_vals = sorted_floats (py_set (map (py_round3 ops) ghz_vals))
            in if length ghz_vals = 1 then trim_float (hd ghz_vals) @ ascii ''GHz''
               else trim_float (hd ghz_vals) @ [8211] @ trim_float (last ghz_vals) @ ascii ''GHz''
          else freqs_raw)"

text \<open>
  What the claims call a parsed entry: \<open>part_value ops part\<close> is the gigahertz value of an
  entry whose text is not blank, has a bar, has an amount that \<open>float()\<close> reads once its
  plus signs are removed, and has a unit of the multiplier table; it is \<open>None\<close> for every
  other entry.
\<close>

definition part_value :: "float_ops \<Rightarrow> pystr \<Rightarrow> ffloat option" where
  "part_value ops part =
     (if strip part = [] \<or> 124 \<notin> set part then None
      else case py_float ops (filter (\<lambda>c. c \<noteq> 43) (takeWhile (\<lambda>c. c \<noteq> 124) part)) of
             None \<Rightarrow> None
           | Some amount \<Rightarrow>
               (case map_of UNIT_TO_GHZ (tl (dropWhile (\<lambda>c. c \<noteq> 124) part)) of
                  None \<Rightarrow> None
                | Some mul \<Rightarrow> Some (py_mul ops amount mul)))"

text \<open>
  An instance of the float operations in exact decimal arithmetic, to evaluate examples:
  it reads unsigned numerals of the form \<open>digits.digits\<close> only, and multiplies and rounds
  without a rounding error. On the examples evaluated below the double operations give
  values that print with the same three decimals.
\<close>

fun digits_value :: "pystr \<Rightarrow> nat \<Rightarrow> nat option" where
  "digits_value [] acc = Some acc"
| "digits_value (c # cs) acc =
     (if 48 \<le> c \<and> c \<le> 57 then digits_value cs (10 * acc + (c - 48)) else None)"

definition exact_float :: "pystr \<Rightarrow> ffloat option" where
  "exact_float s =
     (let ip = takeWhile (\<lambda>c. c \<noteq> 46) s; fp = drop 1 (dropWhile (\<lambda>c. c \<noteq> 46) s)
      in if ip = [] \<and> fp = [] then None
         else case (digits_value ip 0, digits_value fp 0) of
                (Some a, Some b) \<Rightarrow> Some (Num (of_nat a + of_nat b / 10 ^ length fp))
              | _ \<Rightarrow> None)"

definition exact_ops :: float_ops where
  "exact_ops =
     \<lparr>py_float = exact_float,
      py_mul = (\<lambda>a b. Num (fval a * fval b)),
      py_round3 = (\<lambda>x. Num (of_int (round_half_even (fval x * 1000)) / 1000))\<rparr>"

section \<open>Properties of the capacity formatter\<close>

text \<open>
  C6 as stated: the capacity formatter applied to a missing memory size returns the string
  "unknown". Both exporters return the two code points U+4E0D U+660E (the Japanese word
  for "unknown") instead, so the literal string of the claim is not what they return.
\<close>

theorem format_memory_capacity_None_not_unknown:
  "am_atgpu_format_memory_capacity None \<noteq> Inr (ascii ''unknown'') \<and>
   nvgpu_format_memory_capacity None \<noteq> Inr (ascii ''unknown'')"
  by (simp add: am_atgpu_format_memory_capacity_def nvgpu_format_memory_capacity_def ascii_def)

text \<open>
  C6, amended: the capacity formatter of each GPU exporter applied to a missing (None)
  memory size returns the placeholder string U+4E0D U+660E.
\<close>

theorem format_memory_capacity_None:
  "am_atgpu_format_memory_capacity None = Inr [19981, 26126] \<and>
   nvgpu_format_memory_capacity None = Inr [19981, 26126]"
  by (simp add: am_atgpu_format_memory_capacity_def nvgpu_format_memory_capacity_def)

text \<open>
  C10: the capacity formatters of the AMD/ATI exporter and of the NVIDIA exporter are
  extensionally equal: on every optional numeric input, non-finite floats included, they
  return the same string or raise the same exception.
\<close>

theorem format_memory_capacity_am_atgpu_eq_nvgpu:
  "am_atgpu_format_memory_capacity x = nvgpu_format_memory_capacity x"
  by (simp add: am_atgpu_format_memory_capacity_def nvgpu_format_memory_capacity_def)

lemma round_half_even_near:
  assumes "\<bar>x - of_int n\<bar> < 1 / 2"
  shows "round_half_even x = n"
proof -
  have lo: "of_int n - 1 / 2 < x" and hi: "x < of_int n + 1 / 2"
    using assms by linarith+
  show ?thesis
  proof (cases "of_int n \<le> x")
    case True
    then have f: "\<lfloor>x\<rfloor> = n" using hi by linarith
    then show ?thesis using hi by (simp add: round_half_even_def Let_def)
  next
    case False
    then have f: "\<lfloor>x\<rfloor> = n - 1" using lo by linarith
    then show ?thesis using lo False by (simp add: round_half_even_def Let_def)
  qed
qed

lemma float_1e_9_small: "float_1e_9 < 1 / 2"
  by (simp add: float_1e_9_def)

lemma round_half_even_of_int: "round_half_even (of_int n) = n"
  by (simp add: round_half_even_def)

lemma round_half_even_numeral: "round_half_even (numeral k) = numeral k"
  using round_half_even_of_int [of "numeral k"] by simp

lemma floor_17_2: "\<lfloor>17 / 2 :: rat\<rfloor> = 8"
  by linarith

lemma round_half_even_17_2: "round_half_even (17 / 2) = 8"
  by (simp add: round_half_even_def floor_17_2)

lemma format_3f_17_2: "format_3f (17 / 2) = ascii ''8.500''"
  by (simp add: format_3f_def round_half_even_numeral ascii_def)

lemma rstrip_8_500: "rstrip 46 (rstrip 48 (ascii ''8.500'')) = ascii ''8.5''"
  by (simp add: rstrip_def ascii_def)

lemma not_near_17_2: "\<not> \<bar>17 / 2 - rat_of_int n\<bar> < float_1e_9"
proof
  assume a: "\<bar>17 / 2 - rat_of_int n\<bar> < float_1e_9"
  then have "\<bar>17 / 2 - rat_of_int n\<bar> < 1 / 2"
    using float_1e_9_small by linarith
  then have "\<bar>17 - 2 * rat_of_int n\<bar> < 1" by linarith
  then have "rat_of_int \<bar>17 - 2 * n\<bar> < rat_of_int 1" by simp
  then have "\<bar>17 - 2 * n\<bar> < 1" by (simp only: of_int_less_iff)
  then show False by presburger
qed

lemma near_8: "\<bar>8 - rat_of_int 8\<bar> < float_1e_9"
  by (simp add: float_1e_9_def)

lemma nvgpu_format_is_am_atgpu_format:
  "nvgpu_format_memory_capacity = am_atgpu_format_memory_capacity"
  by (rule ext) (simp add: am_atgpu_format_memory_capacity_def nvgpu_format_memory_capacity_def)

lemma am_fmt_nonpos:
  "x \<le> 0 \<Longrightarrow> am_atgpu_format_memory_capacity (Some (Finite x)) = Inr (ascii ''0GB'')"
  by (simp add: am_atgpu_format_memory_capacity_def)

lemma am_fmt_near:
  assumes "0 < x" "\<bar>x - of_int n\<bar> < float_1e_9"
  shows "am_atgpu_format_memory_capacity (Some (Finite x)) = Inr (str_int n @ ascii ''GB'')"
proof -
  have "round_half_even x = n"
    using assms(2) float_1e_9_small by (intro round_half_even_near) linarith
  then show ?thesis using assms by (simp add: am_atgpu_format_memory_capacity_def)
qed

lemma am_fmt_far:
  assumes "0 < x" "\<forall>n. \<not> \<bar>x - of_int n\<bar> < float_1e_9"
  shows "am_atgpu_format_memory_capacity (Some (Finite x)) =
         Inr (rstrip 46 (rstrip 48 (format_3f x)) @ ascii ''GB'')"
  using assms by (simp add: am_atgpu_format_memory_capacity_def Let_def)

lemma am_fmt_8_5: "am_atgpu_format_memory_capacity (Some (Finite (17 / 2))) = Inr (ascii ''8.5GB'')"
  using am_fmt_far [of "17 / 2"] not_near_17_2
  by (simp add: format_3f_17_2 rstrip_8_500) (simp add: ascii_def)

lemma am_fmt_8: "am_atgpu_format_memory_capacity (Some (Finite 8)) = Inr (ascii ''8GB'')"
  using am_fmt_near [of 8 8] near_8 by (simp add: str_int_def) (simp add: ascii_def)

text \<open>
  C7: for every finite numeric memory size \<open>x\<close> the capacity formatter returns "0GB"
  when \<open>x \<le> 0\<close>; the integer \<open>n\<close> followed by "GB" when \<open>x\<close> is positive and within 1e-9
  of the integer \<open>n\<close>; and otherwise \<open>x\<close> printed with three decimals, stripped of its
  trailing zeros and then of a trailing point, followed by "GB". In particular 0 gives
  "0GB", 8.0 gives "8GB", 8.5 gives "8.5GB" and -1 gives "0GB". The NVIDIA formatter
  returns the same as the AMD/ATI one.
\<close>

theorem format_memory_capacity_finite:
  "(x \<le> 0 \<longrightarrow> am_atgpu_format_memory_capacity (Some (Finite x)) = Inr (ascii ''0GB'')) \<and>
   (0 < x \<and> \<bar>x - of_int n\<bar> < float_1e_9 \<longrightarrow>
      am_atgpu_format_memory_capacity (Some (Finite x)) = Inr (str_int n @ ascii ''GB'')) \<and>
   (0 < x \<and> (\<forall>k. \<not> \<bar>x - of_int k\<bar> < float_1e_9) \<longrightarrow>
      am_atgpu_format_memory_capacity (Some (Finite x)) =
        Inr (rstrip 46 (rstrip 48 (format_3f x)) @ ascii ''GB'')) \<and>
   am_atgpu_format_memory_capacity (Some (Finite 0)) = Inr (ascii ''0GB'') \<and>
   am_atgpu_format_memory_capacity (Some (Finite 8)) = Inr (ascii ''8GB'') \<and>
   am_atgpu_format_memory_capacity (Some (Finite (17 / 2))) = Inr (ascii ''8.5GB'') \<and>
   am_atgpu_format_memory_capacity (Some (Finite (- 1))) = Inr (ascii ''0GB'') \<and>
   nvgpu_format_memory_capacity (Some (Finite x)) =
     am_atgpu_format_memory_capacity (Some (Finite x))"
  using am_fmt_nonpos [of x] am_fmt_near [of x n] am_fmt_far [of x] am_fmt_8 am_fmt_8_5
    am_fmt_nonpos [of 0] am_fmt_nonpos [of "- 1"]
  by (simp add: nvgpu_format_is_am_atgpu_format)

text \<open>The three cases of C7 at 0, at 8.0 and at 8.5.\<close>

theorem format_memory_capacity_finite_witness:
  "(0 :: rat) \<le> 0 \<and>
   am_atgpu_format_memory_capacity (Some (Finite 0)) = Inr (ascii ''0GB'') \<and>
   (0 :: rat) < 8 \<and> \<bar>8 - rat_of_int 8\<bar> < float_1e_9 \<and>
   am_atgpu_format_memory_capacity (Some (Finite 8)) = Inr (str_int 8 @ ascii ''GB'') \<and>
   (0 :: rat) < 17 / 2 \<and> (\<forall>k. \<not> \<bar>17 / 2 - rat_of_int k\<bar> < float_1e_9) \<and>
   am_atgpu_format_memory_capacity (Some (Finite (17 / 2))) =
     Inr (rstrip 46 (rstrip 48 (format_3f (17 / 2))) @ ascii ''GB'')"
  using format_memory_capacity_finite [of 0 0] format_memory_capacity_finite [of 8 8]
    format_memory_capacity_finite [of "17 / 2" 0] near_8 not_near_17_2
  by simp

text \<open>
  On the floats that are not finite numbers the formatter returns "0GB" for the negative
  infinity and raises for the positive infinity and for a NaN, in \<open>round\<close>.
\<close>

lemma format_memory_capacity_non_finite:
  "am_atgpu_format_memory_capacity (Some NegInf) = Inr (ascii ''0GB'')"
  "am_atgpu_format_memory_capacity (Some PosInf) = Inl OverflowError"
  "am_atgpu_format_memory_capacity (Some NaN) = Inl ValueError"
  by (simp_all add: am_atgpu_format_memory_capacity_def)

section \<open>Properties of the writer\<close>

lemma join_newline_terminated:
  "join [10] ls @ (if ls \<noteq> [] then [10] else []) = concat (map (\<lambda>l. l @ [10]) ls)"
  by (induction "[10::nat]" ls rule: join.induct) simp_all

lemma to_line_ends_with_quote: "\<exists>body. to_line r = body @ [34]"
  by (simp add: to_line_def)

lemma terminated_lines_end:
  "\<exists>body. concat (map (\<lambda>r. to_line r @ [10]) (r # rs)) = body @ [34, 10]"
proof -
  define rows where "rows = r # rs"
  then have "rows \<noteq> []" by simp
  then obtain front l where rows: "rows = front @ [l]"
    by (metis rev_exhaust)
  obtain b where b: "to_line l = b @ [34]"
    using to_line_ends_with_quote by blast
  have "concat (map (\<lambda>r. to_line r @ [10]) rows) =
        (concat (map (\<lambda>r. to_line r @ [10]) front) @ b) @ [34, 10]"
    by (simp add: rows b)
  then show ?thesis unfolding rows_def by blast
qed

lemma am_atgpu_write_rows_eq:
  "am_atgpu_write_rows fs p rows =
     (fs(p \<mapsto> concat (map (\<lambda>r. to_line r @ [10]) rows)), length rows)"
  using join_newline_terminated [of "map to_line rows"]
  by (simp add: am_atgpu_write_rows_def Let_def comp_def)

lemma nvgpu_write_rows_eq:
  "nvgpu_write_rows fs p rows =
     (fs(p \<mapsto> concat (map (\<lambda>r. to_line r @ [10]) rows)), length rows)"
  using join_newline_terminated [of "map to_line rows"]
  by (simp add: nvgpu_write_rows_def Let_def comp_def)

text \<open>
  C9: for every row sequence, the text that \<open>write_rows\<close> writes is the lines of the rows,
  one per row in order, each followed by one newline (the lines joined by newlines and one
  trailing newline), and the function returns the number of rows. An empty sequence
  writes the empty text; a non-empty one writes a text that ends with the closing quote
  of the last line followed by one newline, so with exactly one trailing newline.
\<close>

theorem write_rows_serialization:
  "am_atgpu_write_rows fs p rows =
     (fs(p \<mapsto> concat (map (\<lambda>r. to_line r @ [10]) rows)), length rows) \<and>
   nvgpu_write_rows fs p rows =
     (fs(p \<mapsto> concat (map (\<lambda>r. to_line r @ [10]) rows)), length rows) \<and>
   fst (am_atgpu_write_rows fs p []) p = Some [] \<and>
   fst (nvgpu_write_rows fs p []) p = Some [] \<and>
   (\<exists>body. fst (am_atgpu_write_rows fs p (r # rs)) p = Some (body @ [34, 10])) \<and>
   (\<exists>body. fst (nvgpu_write_rows fs p (r # rs)) p = Some (body @ [34, 10]))"
  using terminated_lines_end [of r rs]
  by (simp only: am_atgpu_write_rows_eq nvgpu_write_rows_eq) simp

section \<open>Properties of the category filter\<close>

lemma str_in_iff: "str_in m n \<longleftrightarrow> (\<exists>pre suf. n = pre @ m @ suf)"
proof (induction n)
  case Nil
  then show ?case by simp
next
  case (Cons c cs)
  show ?case
  proof
    assume "str_in m (c # cs)"
    then consider "prefix m (c # cs)" | "str_in m cs" by auto
    then show "\<exists>pre suf. c # cs = pre @ m @ suf"
    proof cases
      case 1
      then obtain suf where "c # cs = m @ suf" by (auto simp: prefix_def)
      then have "c # cs = [] @ m @ suf" by simp
      then show ?thesis by blast
    next
      case 2
      then obtain pre suf where "cs = pre @ m @ suf" using Cons.IH by blast
      then have "c # cs = (c # pre) @ m @ suf" by simp
      then show ?thesis by blast
    qed
  next
    assume "\<exists>pre suf. c # cs = pre @ m @ suf"
    then obtain pre suf where e: "c # cs = pre @ m @ suf" by blast
    show "str_in m (c # cs)"
    proof (cases pre)
      case Nil
      then have "prefix m (c # cs)" using e by (simp add: prefix_def)
      then show ?thesis by simp
    next
      case (Cons a pre')
      then have "cs = pre' @ m @ suf" using e by simp
      then have "str_in m cs" using Cons.IH by blast
      then show ?thesis by simp
    qed
  qed
qed

lemma casefold_append: "casefold f (a @ b) = casefold f a @ casefold f b"
  by (simp add: casefold_def)

lemma xbox_marker: "ascii ''xbox'' = [120, 98, 111, 120]"
  by (simp add: ascii_def)

lemma casefold_xbox:
  assumes "f 88 = [120]" "f 120 = [120]" "f 66 = [98]" "f 98 = [98]" "f 79 = [111]" "f 111 = [111]"
    and "x1 \<in> {88, 120}" "b \<in> {66, 98}" "c3 \<in> {79, 111}" "x2 \<in> {88, 120}"
  shows "str_in (ascii ''xbox'') (casefold f (pre @ [x1, b, c3, x2] @ suf))"
proof -
  have "casefold f [x1, b, c3, x2] = [120, 98, 111, 120]"
    using assms by (auto simp: casefold_def)
  then have "casefold f (pre @ [x1, b, c3, x2] @ suf) =
             casefold f pre @ ascii ''xbox'' @ casefold f suf"
    by (simp only: casefold_append xbox_marker)
  then show ?thesis unfolding str_in_iff by blast
qed

text \<open>
  C8: in each GPU exporter the category filter holds of a name if and only if the
  case-folded name contains one of the exporter's marker tokens as a substring; and when
  the folding table maps the letters X, B, O (either case) to x, b, o, every name that
  contains "Xbox" in any letter case is excluded by both exporters, whatever precedes and
  follows it.
\<close>

theorem is_console_gpu_name_iff_marker:
  "(am_atgpu_is_console_gpu_name fold_cp nm \<longleftrightarrow>
      (\<exists>m \<in> set am_atgpu_console_markers. \<exists>pre suf. casefold fold_cp nm = pre @ m @ suf)) \<and>
   (nvgpu_is_console_gpu_name fold_cp nm \<longleftrightarrow>
      (\<exists>m \<in> set nvgpu_console_markers. \<exists>pre suf. casefold fold_cp nm = pre @ m @ suf)) \<and>
   (fold_cp 88 = [120] \<and> fold_cp 120 = [120] \<and> fold_cp 66 = [98] \<and> fold_cp 98 = [98] \<and>
    fold_cp 79 = [111] \<and> fold_cp 111 = [111] \<and>
    x1 \<in> {88, 120} \<and> b \<in> {66, 98} \<and> c3 \<in> {79, 111} \<and> x2 \<in> {88, 120} \<longrightarrow>
      am_atgpu_is_console_gpu_name fold_cp (pre @ [x1, b, c3, x2] @ suf) \<and>
      nvgpu_is_console_gpu_name fold_cp (pre @ [x1, b, c3, x2] @ suf))"
proof (intro conjI impI)
  show "am_atgpu_is_console_gpu_name fold_cp nm \<longleftrightarrow>
      (\<exists>m \<in> set am_atgpu_console_markers. \<exists>pre suf. casefold fold_cp nm = pre @ m @ suf)"
    by (simp only: am_atgpu_is_console_gpu_name_def Let_def list_ex_iff str_in_iff)
  show "nvgpu_is_console_gpu_name fold_cp nm \<longleftrightarrow>
      (\<exists>m \<in> set nvgpu_console_markers. \<exists>pre suf. casefold fold_cp nm = pre @ m @ suf)"
    by (simp only: nvgpu_is_console_gpu_name_def Let_def list_ex_iff str_in_iff)
next
  assume a: "fold_cp 88 = [120] \<and> fold_cp 120 = [120] \<and> fold_cp 66 = [98] \<and> fold_cp 98 = [98] \<and>
    fold_cp 79 = [111] \<and> fold_cp 111 = [111] \<and>
    x1 \<in> {88, 120} \<and> b \<in> {66, 98} \<and> c3 \<in> {79, 111} \<and> x2 \<in> {88, 120}"
  then have s: "str_in (ascii ''xbox'') (casefold fold_cp (pre @ [x1, b, c3, x2] @ suf))"
    by (intro casefold_xbox) simp_all
  show "am_atgpu_is_console_gpu_name fold_cp (pre @ [x1, b, c3, x2] @ suf)"
    using s by (simp add: am_atgpu_is_console_gpu_name_def Let_def am_atgpu_console_markers_def)
  show "nvgpu_is_console_gpu_name fold_cp (pre @ [x1, b, c3, x2] @ suf)"
    using s by (simp add: nvgpu_is_console_gpu_name_def Let_def nvgpu_console_markers_def)
qed

text \<open>The name "My XBox 360" under the ASCII folding.\<close>

theorem is_console_gpu_name_iff_marker_witness:
  "ascii_fold 88 = [120] \<and> ascii_fold 120 = [120] \<and> ascii_fold 66 = [98] \<and>
   ascii_fold 98 = [98] \<and> ascii_fold 79 = [111] \<and> ascii_fold 111 = [111] \<and>
   (88 :: nat) \<in> {88, 120} \<and> (66 :: nat) \<in> {66, 98} \<and> (111 :: nat) \<in> {79, 111} \<and>
   (120 :: nat) \<in> {88, 120} \<and>
   am_atgpu_is_console_gpu_name ascii_fold (ascii ''My '' @ [88, 66, 111, 120] @ ascii '' 360'') \<and>
   nvgpu_is_console_gpu_name ascii_fold (ascii ''My '' @ [88, 66, 111, 120] @ ascii '' 360'')"
  using is_console_gpu_name_iff_marker
    [of ascii_fold "[]" 88 66 111 120 "ascii ''My ''" "ascii '' 360''"]
  by (simp add: ascii_fold_def)

section \<open>Properties of the deduplicator and sorter\<close>

text \<open>\<open>rev (remdups (rev xs))\<close> keeps the first occurrence of every element, in input order.\<close>

lemma remdups_snoc: "remdups (xs @ [r]) = filter (\<lambda>x. x \<noteq> r) (remdups xs) @ [r]"
  by (induction xs) auto

lemma first_occurrences_Cons:
  "rev (remdups (rev (r # rs))) = r # filter (\<lambda>x. x \<noteq> r) (rev (remdups (rev rs)))"
  by (simp add: remdups_snoc rev_filter)

lemma row_key_inj: "row_key r = row_key r' \<longleftrightarrow> r = r'"
  by (auto simp: row_key_def)

lemma map_of_keyed:
  assumes "\<forall>(k, v) \<in> set d. k = row_key v"
  shows "map_of d (row_key r) = None \<longleftrightarrow> r \<notin> snd ` set d"
proof -
  have "map_of d (row_key r) = None \<longleftrightarrow> row_key r \<notin> fst ` set d"
    by (simp add: map_of_eq_None_iff)
  also have "\<dots> \<longleftrightarrow> r \<notin> snd ` set d"
    using assms by (force simp: row_key_inj image_iff)
  finally show ?thesis .
qed

lemma fold_setdefault_rows:
  assumes "\<forall>(k, v) \<in> set d. k = row_key v"
  shows "map snd (fold (\<lambda>r d. setdefault d (row_key r) r) rows d) =
         map snd d @ filter (\<lambda>r. r \<notin> snd ` set d) (rev (remdups (rev rows)))"
  using assms
proof (induction rows arbitrary: d)
  case Nil
  then show ?case by simp
next
  case (Cons r rs)
  show ?case
  proof (cases "r \<in> snd ` set d")
    case True
    then have "setdefault d (row_key r) r = d"
      using map_of_keyed [OF Cons.prems, of r] by (auto simp: setdefault_def split: option.splits)
    moreover have "filter (\<lambda>x. x \<notin> snd ` set d) (filter (\<lambda>x. x \<noteq> r) (rev (remdups (rev rs)))) =
                   filter (\<lambda>x. x \<notin> snd ` set d) (rev (remdups (rev rs)))"
      using True by (auto intro!: filter_cong)
    ultimately show ?thesis
      using Cons.IH [OF Cons.prems] True
      by (simp only: fold_simps first_occurrences_Cons) simp
  next
    case False
    then have sd: "setdefault d (row_key r) r = d @ [(row_key r, r)]"
      using map_of_keyed [OF Cons.prems, of r] by (auto simp: setdefault_def split: option.splits)
    have inv: "\<forall>(k, v) \<in> set (d @ [(row_key r, r)]). k = row_key v"
      using Cons.prems by auto
    have "filter (\<lambda>x. x \<notin> snd ` set (d @ [(row_key r, r)])) (rev (remdups (rev rs))) =
          filter (\<lambda>x. x \<notin> snd ` set d) (filter (\<lambda>x. x \<noteq> r) (rev (remdups (rev rs))))"
      by (auto intro!: filter_cong)
    then show ?thesis
      using Cons.IH [OF inv] False
      by (simp only: fold_simps first_occurrences_Cons sd) simp
  qed
qed

lemma unique_values:
  "map snd (fold (\<lambda>r d. setdefault d (row_key r) r) rows []) = rev (remdups (rev rows))"
  using fold_setdefault_rows [of "[]" rows] by simp

lemma am_atgpu_build_eq:
  "am_atgpu_build_unique_sorted_rows lower rows =
   sort_key (sort_key_of lower) (rev (remdups (rev rows)))"
  by (simp only: am_atgpu_build_unique_sorted_rows_def Let_def unique_values)

lemma nvgpu_build_eq:
  "nvgpu_build_unique_sorted_rows lower rows =
   sort_key (sort_key_of lower) (rev (remdups (rev rows)))"
  by (simp only: nvgpu_build_unique_sorted_rows_def Let_def unique_values)

lemma sorted_by_key_explicit:
  assumes "sorted (map (sort_key_of lower) out)"
  shows "sorted_wrt (\<lambda>a b. lower (name a) < lower (name b) \<or>
            lower (name a) = lower (name b) \<and>
            (memory_capacity a < memory_capacity b \<or>
             memory_capacity a = memory_capacity b \<and> memory_type a \<le> memory_type b)) out"
proof -
  have "sorted_wrt (\<lambda>a b. sort_key_of lower a \<le> sort_key_of lower b) out"
    using assms by (simp add: sorted_map)
  then show ?thesis
    by (rule sorted_wrt_mono_rel [rotated]) (auto simp: sort_key_of_def less_eq_prod_def)
qed

text \<open>
  C1: for every finite sequence of rows, \<open>build_unique_sorted_rows\<close> of either GPU
  exporter returns the first occurrences of the rows in input order (rows with an
  identical (name, attribute-1, attribute-2) triple are one row, so the result has no
  duplicates and holds exactly the rows of the input: two rows that differ in either
  attribute both survive), sorted stably by the key (lowercased name, attribute-1,
  attribute-2): the primary key is the lowercased name, and for equal lowercased names
  the raw string order of the first and then of the second attribute decides.
\<close>

theorem build_unique_sorted_rows_spec:
  "am_atgpu_build_unique_sorted_rows lower rows =
     sort_key (sort_key_of lower) (rev (remdups (rev rows))) \<and>
   nvgpu_build_unique_sorted_rows lower rows = am_atgpu_build_unique_sorted_rows lower rows \<and>
   distinct (am_atgpu_build_unique_sorted_rows lower rows) \<and>
   set (am_atgpu_build_unique_sorted_rows lower rows) = set rows \<and>
   sorted (map (sort_key_of lower) (am_atgpu_build_unique_sorted_rows lower rows)) \<and>
   sorted_wrt (\<lambda>a b. lower (name a) < lower (name b) \<or>
       lower (name a) = lower (name b) \<and>
       (memory_capacity a < memory_capacity b \<or>
        memory_capacity a = memory_capacity b \<and> memory_type a \<le> memory_type b))
     (am_atgpu_build_unique_sorted_rows lower rows) \<and>
   filter (\<lambda>r. sort_key_of lower r = k) (am_atgpu_build_unique_sorted_rows lower rows) =
     filter (\<lambda>r. sort_key_of lower r = k) (rev (remdups (rev rows)))"
proof -
  let ?out = "sort_key (sort_key_of lower) (rev (remdups (rev rows)))"
  have s: "sorted (map (sort_key_of lower) ?out)" by simp
  have "distinct ?out" by simp
  moreover have "set ?out = set rows" by simp
  moreover note s sorted_by_key_explicit [OF s]
  moreover have "filter (\<lambda>r. sort_key_of lower r = k) ?out =
      filter (\<lambda>r. sort_key_of lower r = k) (rev (remdups (rev rows)))"
    by (rule sort_key_stable)
  ultimately show ?thesis
    by (simp only: am_atgpu_build_eq nvgpu_build_eq)
qed

section \<open>Properties of the normalised rows\<close>

lemma strip_eq_Nil_iff: "strip s = [] \<longleftrightarrow> (\<forall>c \<in> set s. is_space c)"
proof
  assume "strip s = []"
  then have a: "\<forall>c \<in> set (dropWhile is_space s). is_space c"
    by (simp add: strip_def dropWhile_eq_Nil_conv)
  have "dropWhile is_space s = []"
  proof (rule ccontr)
    assume n: "dropWhile is_space s \<noteq> []"
    then have "\<not> is_space (hd (dropWhile is_space s))" by (rule hd_dropWhile)
    moreover have "hd (dropWhile is_space s) \<in> set (dropWhile is_space s)"
      using n by simp
    ultimately show False using a by blast
  qed
  then show "\<forall>c \<in> set s. is_space c" by (simp add: dropWhile_eq_Nil_conv)
next
  assume "\<forall>c \<in> set s. is_space c"
  then have d: "dropWhile is_space s = []" by (simp add: dropWhile_eq_Nil_conv)
  show "strip s = []" by (simp only: strip_def d) simp
qed

lemma am_fmt_nonempty: "am_atgpu_format_memory_capacity x = Inr s \<Longrightarrow> s \<noteq> []"
  by (auto simp: am_atgpu_format_memory_capacity_def ascii_def Let_def
      split: option.splits pyfloat.splits if_splits)

lemma nvgpu_fmt_nonempty: "nvgpu_format_memory_capacity x = Inr s \<Longrightarrow> s \<noteq> []"
  by (auto simp: nvgpu_format_memory_capacity_def ascii_def Let_def
      split: option.splits pyfloat.splits if_splits)

lemma placeholder_not_blank: "strip [19981, 26126] \<noteq> []"
  by (simp add: strip_eq_Nil_iff is_space_def)

lemma strip_str_or_nonempty:
  "strip (str_or mt [19981, 26126]) \<noteq> [] \<longleftrightarrow>
     (case mt of None \<Rightarrow> True | Some s \<Rightarrow> s = [] \<or> (\<exists>c \<in> set s. \<not> is_space c))"
  using placeholder_not_blank
  by (auto simp: str_or_def strip_eq_Nil_iff split: option.splits)

text \<open>
  The capacity of a normalised row is never empty, and its memory type is non-empty
  exactly when the record's memory type is missing, empty, or has a non-blank code point.
\<close>

lemma am_atgpu_row_fields:
  assumes "am_atgpu_row_from_spec spec = Inr row"
  shows "memory_capacity row \<noteq> []"
    and "memory_type row \<noteq> [] \<longleftrightarrow>
           (case spec_memory_type spec of None \<Rightarrow> True
            | Some s \<Rightarrow> s = [] \<or> (\<exists>c \<in> set s. \<not> is_space c))"
  using assms am_fmt_nonempty strip_str_or_nonempty [of "spec_memory_type spec"]
  by (auto simp: am_atgpu_row_from_spec_def Let_def split: sum.splits)

lemma nvgpu_row_fields:
  assumes "nvgpu_row_from_spec spec = Inr row"
  shows "memory_capacity row \<noteq> []"
    and "memory_type row \<noteq> [] \<longleftrightarrow>
           (case spec_memory_type spec of None \<Rightarrow> True
            | Some s \<Rightarrow> s = [] \<or> (\<exists>c \<in> set s. \<not> is_space c))"
  using assms nvgpu_fmt_nonempty strip_str_or_nonempty [of "spec_memory_type spec"]
  by (auto simp: nvgpu_row_from_spec_def Let_def split: sum.splits)

text \<open>Every row that a generator yields has a non-empty name and a non-empty capacity.\<close>

lemma iter_amd_ati_gpu_rows_fields:
  "iter_amd_ati_gpu_rows fold_cp specs = Inr rows \<Longrightarrow> r \<in> set rows \<Longrightarrow>
     name r \<noteq> [] \<and> memory_capacity r \<noteq> []"
proof (induction specs arbitrary: rows)
  case Nil
  then show ?case by simp
next
  case (Cons spec specs)
  then show ?case
    using am_atgpu_row_fields(1)
    by (fastforce split: if_splits sum.splits)
qed

lemma iter_nvidia_gpu_rows_fields:
  "iter_nvidia_gpu_rows fold_cp specs = Inr rows \<Longrightarrow> r \<in> set rows \<Longrightarrow>
     name r \<noteq> [] \<and> memory_capacity r \<noteq> []"
proof (induction specs arbitrary: rows)
  case Nil
  then show ?case by simp
next
  case (Cons spec specs)
  then show ?case
    using nvgpu_row_fields(1)
    by (fastforce split: if_splits sum.splits)
qed

lemma strip_Radeon: "strip (ascii ''Radeon'') = ascii ''Radeon''"
  by (simp add: strip_def ascii_def is_space_def)

lemma strip_blank: "strip [32] = []"
  by (simp add: strip_def is_space_def)

lemma casefold_Radeon: "casefold ascii_fold (ascii ''Radeon'') = ascii ''radeon''"
  by (simp add: casefold_def ascii_fold_def ascii_def)

lemma Radeon_not_console_am: "\<not> am_atgpu_is_console_gpu_name ascii_fold (ascii ''Radeon'')"
  by (simp add: am_atgpu_is_console_gpu_name_def casefold_Radeon am_atgpu_console_markers_def)
    (simp add: ascii_def)

lemma Radeon_not_console_nvgpu: "\<not> nvgpu_is_console_gpu_name ascii_fold (ascii ''Radeon'')"
  by (simp add: nvgpu_is_console_gpu_name_def casefold_Radeon nvgpu_console_markers_def)
    (simp add: ascii_def)

lemma Radeon_nonempty: "ascii ''Radeon'' \<noteq> []"
  by (simp add: ascii_def)

lemma am_row_blank:
  "am_atgpu_row_from_spec
     \<lparr>spec_manufacturer = m, spec_name = Some (ascii ''Radeon''),
      spec_memory_size_gb = Some (Finite 8), spec_memory_type = Some [32]\<rparr> =
     Inr \<lparr>name = ascii ''Radeon'', memory_capacity = ascii ''8GB'', memory_type = []\<rparr>"
  by (simp add: am_atgpu_row_from_spec_def am_fmt_8 str_or_def strip_Radeon strip_blank
      Radeon_nonempty)

lemma nvgpu_row_blank:
  "nvgpu_row_from_spec
     \<lparr>spec_manufacturer = m, spec_name = Some (ascii ''Radeon''),
      spec_memory_size_gb = Some (Finite 8), spec_memory_type = Some [32]\<rparr> =
     Inr \<lparr>name = ascii ''Radeon'', memory_capacity = ascii ''8GB'', memory_type = []\<rparr>"
  by (simp add: nvgpu_row_from_spec_def nvgpu_format_is_am_atgpu_format am_fmt_8 str_or_def
      strip_Radeon strip_blank Radeon_nonempty)

text \<open>
  C2 says that every row retained by the pipeline has three non-empty fields, missing data
  being replaced by a placeholder. The placeholder is substituted before the memory type
  is stripped, so a record whose memory type is the one-space string is normalised to a
  row whose memory type is the empty string, and both exporters retain that row.
\<close>

theorem blank_memory_type_survives:
  "iter_amd_ati_gpu_rows ascii_fold
     [\<lparr>spec_manufacturer = ascii ''AMD'', spec_name = Some (ascii ''Radeon''),
       spec_memory_size_gb = Some (Finite 8), spec_memory_type = Some [32]\<rparr>] =
     Inr [\<lparr>name = ascii ''Radeon'', memory_capacity = ascii ''8GB'', memory_type = []\<rparr>] \<and>
   iter_nvidia_gpu_rows ascii_fold
     [\<lparr>spec_manufacturer = ascii ''NVIDIA'', spec_name = Some (ascii ''Radeon''),
       spec_memory_size_gb = Some (Finite 8), spec_memory_type = Some [32]\<rparr>] =
     Inr [\<lparr>name = ascii ''Radeon'', memory_capacity = ascii ''8GB'', memory_type = []\<rparr>]"
  using Radeon_not_console_am Radeon_not_console_nvgpu
  by (simp add: am_row_blank nvgpu_row_blank Radeon_nonempty)

section \<open>Properties of the frequency formatter\<close>

text \<open>The loop collects the values of the parsed entries, in input order.\<close>

lemma parse_part_eq:
  "parse_part ops part (g, u) =
     (case part_value ops part of
        Some v \<Rightarrow> (g @ [v], u)
      | None \<Rightarrow> (g, if strip part = [] then u else u @ [part]))"
  by (simp add: parse_part_def part_value_def Let_def split: option.splits)

lemma fold_parse_part:
  "fold (parse_part ops) parts (g, u) =
     (g @ List.map_filter (part_value ops) parts,
      u @ filter (\<lambda>p. strip p \<noteq> [] \<and> part_value ops p = None) parts)"
proof (induction parts arbitrary: g u)
  case Nil
  then show ?case by (simp add: map_filter_simps)
next
  case (Cons p ps)
  show ?case
    by (cases "part_value ops p") (simp_all add: parse_part_eq Cons.IH map_filter_simps)
qed

lemma map_filter_eq_Nil_iff: "List.map_filter f xs = [] \<longleftrightarrow> (\<forall>x \<in> set xs. f x = None)"
  by (induction xs) (auto simp: map_filter_simps split: option.splits)

lemma set_map_filter: "set (List.map_filter f xs) = {v. \<exists>x \<in> set xs. f x = Some v}"
  by (induction xs) (auto simp: map_filter_simps split: option.splits)

text \<open>The set of the rounded values, and its sorted list.\<close>

lemma set_add_values: "fval ` set (set_add x acc) = insert (fval x) (fval ` set acc)"
  by (auto simp: set_add_def)

lemma set_add_distinct: "distinct (map fval acc) \<Longrightarrow> distinct (map fval (set_add x acc))"
  by (auto simp: set_add_def)

lemma set_add_subset: "set (set_add x acc) \<subseteq> insert x (set acc)"
  by (auto simp: set_add_def)

lemma fold_set_add:
  "fval ` set (fold set_add xs acc) = fval ` set xs \<union> fval ` set acc \<and>
   (distinct (map fval acc) \<longrightarrow> distinct (map fval (fold set_add xs acc))) \<and>
   set (fold set_add xs acc) \<subseteq> set xs \<union> set acc"
proof (induction xs arbitrary: acc)
  case Nil
  then show ?case by simp
next
  case (Cons x xs)
  have "set (set_add x acc) \<subseteq> insert x (set acc)" by (rule set_add_subset)
  then show ?case
    using Cons.IH [of "set_add x acc"] set_add_distinct [of acc x]
    by (simp add: set_add_values) blast
qed

lemma py_set_values: "fval ` set (py_set xs) = fval ` set xs"
  using fold_set_add [of xs "[]"] by (simp add: py_set_def)

lemma py_set_distinct: "distinct (map fval (py_set xs))"
  using fold_set_add [of xs "[]"] by (simp add: py_set_def)

lemma py_set_subset: "set (py_set xs) \<subseteq> set xs"
  using fold_set_add [of xs "[]"] by (simp add: py_set_def)

lemma sorted_floats_props:
  "sorted (map fval (sorted_floats xs))" "set (sorted_floats xs) = set xs"
  "distinct (map fval (sorted_floats xs)) = distinct (map fval xs)"
  "length (sorted_floats xs) = length xs"
proof -
  show "sorted (map fval (sorted_floats xs))" by (simp add: sorted_floats_def)
  show "set (sorted_floats xs) = set xs" by (simp add: sorted_floats_def)
  show "length (sorted_floats xs) = length xs" by (simp add: sorted_floats_def)
  show "distinct (map fval (sorted_floats xs)) = distinct (map fval xs)"
    by (simp add: sorted_floats_def distinct_map)
qed


lemma parse_freqs_to_str_eq:
  "parse_freqs_to_str ops raw =
     (if raw = [] then [63]
      else let ghz_vals = List.map_filter (part_value ops) (split_on 59 raw)
           in if ghz_vals \<noteq> [] then
                let vs = sorted_floats (py_set (map (py_round3 ops) ghz_vals))
                in if length vs = 1 then trim_float (hd vs) @ ascii ''GHz''
                   else trim_float (hd vs) @ [8211] @ trim_float (last vs) @ ascii ''GHz''
              else raw)"
  by (simp add: parse_freqs_to_str_def fold_parse_part Let_def)

lemma split_on_Nil: "split_on sep [] = [[]]"
  by simp

lemma blank_part_value: "part_value ops [] = None"
  by (simp add: part_value_def strip_def)

lemma parsed_nonempty_raw:
  assumes "p \<in> set (split_on 59 raw)" "part_value ops p \<noteq> None"
  shows "raw \<noteq> []"
proof
  assume "raw = []"
  then have "p = []" using assms(1) by simp
  then show False using assms(2) by (simp add: part_value_def strip_def)
qed

lemma sorted_hd_last:
  assumes "sorted (map f vs)" "v \<in> set vs"
  shows "f (hd vs) \<le> f v \<and> f v \<le> f (last vs)"
proof -
  have ne: "vs \<noteq> []" using assms(2) by auto
  obtain i where i: "i < length vs" "vs ! i = v"
    using assms(2) by (auto simp: in_set_conv_nth)
  have "map f vs ! 0 \<le> map f vs ! i"
    using assms(1) i(1) by (intro sorted_nth_mono) simp_all
  moreover have "map f vs ! i \<le> map f vs ! (length vs - 1)"
    using assms(1) i(1) by (intro sorted_nth_mono) simp_all
  ultimately show ?thesis
    using ne i by (simp add: hd_conv_nth last_conv_nth)
qed

lemma freq_core:
  assumes "p \<in> set (split_on 59 raw)" "part_value ops p \<noteq> None"
  defines "R \<equiv> py_round3 ops ` {v. \<exists>p \<in> set (split_on 59 raw). part_value ops p = Some v}"
  defines "vs \<equiv> sorted_floats (py_set (map (py_round3 ops)
                   (List.map_filter (part_value ops) (split_on 59 raw))))"
  shows "parse_freqs_to_str ops raw =
           (if length vs = 1 then trim_float (hd vs) @ ascii ''GHz''
            else trim_float (hd vs) @ [8211] @ trim_float (last vs) @ ascii ''GHz'')"
    and "vs \<noteq> []" and "sorted (map fval vs)" and "distinct (map fval vs)"
    and "set vs \<subseteq> R" and "fval ` set vs = fval ` R"
proof -
  let ?parsed = "List.map_filter (part_value ops) (split_on 59 raw)"
  have ne: "?parsed \<noteq> []"
    using assms(1,2) by (auto simp: map_filter_eq_Nil_iff)
  have raw: "raw \<noteq> []" using assms(1,2) by (rule parsed_nonempty_raw)
  show "parse_freqs_to_str ops raw =
           (if length vs = 1 then trim_float (hd vs) @ ascii ''GHz''
            else trim_float (hd vs) @ [8211] @ trim_float (last vs) @ ascii ''GHz'')"
    using ne raw by (simp add: parse_freqs_to_str_eq Let_def vs_def)
  have R: "R = set (map (py_round3 ops) ?parsed)"
    by (simp add: R_def set_map_filter)
  show "set vs \<subseteq> R"
    using py_set_subset [of "map (py_round3 ops) ?parsed"]
    by (simp only: vs_def sorted_floats_props(2) R)
  show v: "fval ` set vs = fval ` R"
    by (simp only: vs_def sorted_floats_props(2) py_set_values R)
  have "fval ` R \<noteq> {}" using ne by (simp add: R)
  then show "vs \<noteq> []" using v by auto
  show "sorted (map fval vs)" by (simp only: vs_def sorted_floats_props(1))
  show "distinct (map fval vs)"
    by (simp only: vs_def sorted_floats_props(3) py_set_distinct)
qed

text \<open>Splitting the joined pieces gives the pieces back.\<close>

lemma split_on_no_sep: "sep \<notin> set p \<Longrightarrow> split_on sep p = [p]"
  by (induction p) auto

lemma split_on_append:
  "sep \<notin> set p \<Longrightarrow> split_on sep (p @ sep # rest) = p # split_on sep rest"
  by (induction p) auto

lemma split_on_parts_no_sep: "p \<in> set (split_on sep s) \<Longrightarrow> sep \<notin> set p"
proof (induction s arbitrary: p)
  case Nil
  then show ?case by simp
next
  case (Cons c cs)
  then show ?case
    by (cases "split_on sep cs") (auto split: if_splits)
qed

lemma split_on_join:
  "ps \<noteq> [] \<Longrightarrow> \<forall>p \<in> set ps. sep \<notin> set p \<Longrightarrow> split_on sep (join [sep] ps) = ps"
proof (induction "[sep]" ps rule: join.induct)
  case 1
  then show ?case by simp
next
  case (2 x)
  then show ?case by (simp add: split_on_no_sep)
next
  case (3 x y ys)
  then show ?case by (simp add: split_on_append)
qed

lemma map_filter_filter_Some:
  "List.map_filter f (filter (\<lambda>x. f x \<noteq> None) xs) = List.map_filter f xs"
  by (induction xs) (auto simp: map_filter_simps split: option.splits)

lemma join_nonempty: "p \<in> set ps \<Longrightarrow> p \<noteq> [] \<Longrightarrow> join sep ps \<noteq> []"
  by (induction sep ps rule: join.induct) auto

lemma drop_unparsed:
  assumes "p \<in> set (split_on 59 raw)" "part_value ops p \<noteq> None"
  shows "parse_freqs_to_str ops
           (join [59] (filter (\<lambda>p. part_value ops p \<noteq> None) (split_on 59 raw))) =
         parse_freqs_to_str ops raw"
proof -
  let ?kept = "filter (\<lambda>p. part_value ops p \<noteq> None) (split_on 59 raw)"
  have k: "p \<in> set ?kept" using assms by simp
  have pne: "p \<noteq> []" using assms(2) by (auto simp: part_value_def strip_def)
  have j: "join [59] ?kept \<noteq> []" using k pne by (rule join_nonempty)
  have kne: "?kept \<noteq> []" by (metis k empty_iff list.set(1))
  have "\<forall>q \<in> set ?kept. 59 \<notin> set q"
    by (auto dest: split_on_parts_no_sep)
  with kne have "split_on 59 (join [59] ?kept) = ?kept"
    by (rule split_on_join)
  then have "List.map_filter (part_value ops) (split_on 59 (join [59] ?kept)) =
             List.map_filter (part_value ops) (split_on 59 raw)"
    by (simp only: map_filter_filter_Some)
  moreover have "raw \<noteq> []" using assms by (rule parsed_nonempty_raw)
  moreover have "List.map_filter (part_value ops) (split_on 59 raw) \<noteq> []"
    using assms by (auto simp: map_filter_eq_Nil_iff)
  ultimately show ?thesis
    using j by (simp add: parse_freqs_to_str_eq Let_def)
qed

section \<open>The frequency formatter on examples\<close>

lemma strip_nonblank: "\<not> is_space c \<Longrightarrow> strip (c # cs) \<noteq> []"
  by (simp add: strip_eq_Nil_iff)

lemma ghz_unit:
  "map_of UNIT_TO_GHZ (ascii ''http://www.wikidata.org/entity/Q3276763'') = Some (Num 1)"
  by (simp add: UNIT_TO_GHZ_def ascii_def)

lemma takeWhile_until: "s \<notin> set xs \<Longrightarrow> takeWhile (\<lambda>x. x \<noteq> s) (xs @ s # u) = xs"
  by (induction xs) auto

lemma dropWhile_until: "s \<notin> set xs \<Longrightarrow> dropWhile (\<lambda>x. x \<noteq> s) (xs @ s # u) = s # u"
  by (induction xs) auto

lemma part_value_exact_ghz:
  assumes "exact_float (c # cs) = Some (Num q)" "\<not> is_space c"
    and "124 \<notin> set (c # cs)" "43 \<notin> set (c # cs)"
  shows "part_value exact_ops
           ((c # cs) @ 124 # ascii ''http://www.wikidata.org/entity/Q3276763'') = Some (Num q)"
proof -
  have t: "takeWhile (\<lambda>x. x \<noteq> 124) ((c # cs) @ 124 # u) = c # cs" for u
    using assms(3) by (rule takeWhile_until)
  have d: "dropWhile (\<lambda>x. x \<noteq> 124) ((c # cs) @ 124 # u) = 124 # u" for u
    using assms(3) by (rule dropWhile_until)
  have f: "filter (\<lambda>x. x \<noteq> 43) (c # cs) = c # cs"
    using assms(4) by (auto simp: filter_id_conv)
  have s: "strip ((c # cs) @ 124 # u) \<noteq> []" for u
    using strip_nonblank [OF assms(2)] by simp
  show ?thesis
    unfolding part_value_def
    using s assms(1) ghz_unit
    by (simp only: t d f) (simp add: exact_ops_def fval_def)
qed

lemma exact_float_2_7: "exact_float (ascii ''2.7'') = Some (Num (27 / 10))"
  by (simp add: exact_float_def ascii_def)

lemma exact_float_3_9: "exact_float (ascii ''3.9'') = Some (Num (39 / 10))"
  by (simp add: exact_float_def ascii_def)

lemma exact_float_3_6: "exact_float (ascii ''3.6'') = Some (Num (18 / 5))"
  by (simp add: exact_float_def ascii_def)

lemma part_value_2_7:
  "part_value exact_ops (ascii ''2.7|http://www.wikidata.org/entity/Q3276763'') =
     Some (Num (27 / 10))"
  using part_value_exact_ghz [of 50 "[46, 55]" "27 / 10"] exact_float_2_7
  by (simp add: ascii_def is_space_def)

lemma part_value_3_9:
  "part_value exact_ops (ascii ''3.9|http://www.wikidata.org/entity/Q3276763'') =
     Some (Num (39 / 10))"
  using part_value_exact_ghz [of 51 "[46, 57]" "39 / 10"] exact_float_3_9
  by (simp add: ascii_def is_space_def)

lemma part_value_3_6:
  "part_value exact_ops (ascii ''3.6|http://www.wikidata.org/entity/Q3276763'') =
     Some (Num (18 / 5))"
  using part_value_exact_ghz [of 51 "[46, 54]" "18 / 5"] exact_float_3_6
  by (simp add: ascii_def is_space_def)

lemma split_2_7_3_9:
  "split_on 59 (ascii ''2.7|http://www.wikidata.org/entity/Q3276763;3.9|http://www.wikidata.org/entity/Q3276763'') =
     [ascii ''2.7|http://www.wikidata.org/entity/Q3276763'',
      ascii ''3.9|http://www.wikidata.org/entity/Q3276763'']"
  by (simp add: ascii_def)

lemma split_3_6_na:
  "split_on 59 (ascii ''3.6|http://www.wikidata.org/entity/Q3276763;n/a'') =
     [ascii ''3.6|http://www.wikidata.org/entity/Q3276763'', ascii ''n/a'']"
  by (simp add: ascii_def)

lemma round3_exact_27: "py_round3 exact_ops (Num (27 / 10)) = Num (27 / 10)"
  by (simp add: exact_ops_def fval_def round_half_even_numeral)

lemma round3_exact_39: "py_round3 exact_ops (Num (39 / 10)) = Num (39 / 10)"
  by (simp add: exact_ops_def fval_def round_half_even_numeral)

lemma trim_float_2_7: "trim_float (Num (27 / 10)) = ascii ''2.7''"
  by (simp add: trim_float_def format_3f_float_def format_3f_def round_half_even_numeral
      rstrip_def ascii_def)

lemma trim_float_3_9: "trim_float (Num (39 / 10)) = ascii ''3.9''"
  by (simp add: trim_float_def format_3f_float_def format_3f_def round_half_even_numeral
      rstrip_def ascii_def)

lemma sorted_set_27_39:
  "sorted_floats (py_set [Num (27 / 10), Num (39 / 10)]) = [Num (27 / 10), Num (39 / 10)]"
  by (simp add: sorted_floats_def py_set_def set_add_def fval_def)

lemma parse_freqs_example:
  "parse_freqs_to_str exact_ops
     (ascii ''2.7|http://www.wikidata.org/entity/Q3276763;3.9|http://www.wikidata.org/entity/Q3276763'') =
   ascii ''2.7'' @ [8211] @ ascii ''3.9GHz''"
proof -
  have ne: "ascii ''2.7|http://www.wikidata.org/entity/Q3276763;3.9|http://www.wikidata.org/entity/Q3276763'' \<noteq> []"
    by (simp add: ascii_def)
  show ?thesis
    using ne
    by (simp add: parse_freqs_to_str_eq split_2_7_3_9 map_filter_simps part_value_2_7
        part_value_3_9 round3_exact_27 round3_exact_39 sorted_set_27_39 trim_float_2_7
        trim_float_3_9)
      (simp add: ascii_def)
qed

section \<open>The claims about the frequency formatter\<close>

text \<open>
  C3: for every frequency input in which at least one entry parses, the formatter renders
  a list \<open>vs\<close> of values that is not empty, is sorted ascending, has no two equal values,
  and holds exactly the values of the parsed entries (each amount multiplied by the
  multiplier of its unit, then rounded to three decimals); and the output is the same as
  on the input from which every unparsed entry has been removed.
\<close>

theorem parse_freqs_to_str_parsed:
  assumes "p \<in> set (split_on 59 raw)" "part_value ops p \<noteq> None"
  shows "(\<exists>vs. vs \<noteq> [] \<and> sorted (map fval vs) \<and> distinct (map fval vs) \<and>
           set vs \<subseteq> py_round3 ops ` {v. \<exists>q \<in> set (split_on 59 raw). part_value ops q = Some v} \<and>
           fval ` set vs =
             fval ` py_round3 ops ` {v. \<exists>q \<in> set (split_on 59 raw). part_value ops q = Some v} \<and>
           parse_freqs_to_str ops raw =
             (if length vs = 1 then trim_float (hd vs) @ ascii ''GHz''
              else trim_float (hd vs) @ [8211] @ trim_float (last vs) @ ascii ''GHz'')) \<and>
         parse_freqs_to_str ops raw =
           parse_freqs_to_str ops
             (join [59] (filter (\<lambda>q. part_value ops q \<noteq> None) (split_on 59 raw)))"
proof (rule conjI)
  show "\<exists>vs. vs \<noteq> [] \<and> sorted (map fval vs) \<and> distinct (map fval vs) \<and>
           set vs \<subseteq> py_round3 ops ` {v. \<exists>q \<in> set (split_on 59 raw). part_value ops q = Some v} \<and>
           fval ` set vs =
             fval ` py_round3 ops ` {v. \<exists>q \<in> set (split_on 59 raw). part_value ops q = Some v} \<and>
           parse_freqs_to_str ops raw =
             (if length vs = 1 then trim_float (hd vs) @ ascii ''GHz''
              else trim_float (hd vs) @ [8211] @ trim_float (last vs) @ ascii ''GHz'')"
    using freq_core [OF assms] by (intro exI conjI)
  show "parse_freqs_to_str ops raw =
           parse_freqs_to_str ops
             (join [59] (filter (\<lambda>q. part_value ops q \<noteq> None) (split_on 59 raw)))"
    using drop_unparsed [OF assms] by simp
qed

text \<open>The input "3.6|http://www.wikidata.org/entity/Q3276763;n/a", whose second entry does not parse.\<close>

theorem parse_freqs_to_str_parsed_witness:
  "ascii ''3.6|http://www.wikidata.org/entity/Q3276763'' \<in>
     set (split_on 59 (ascii ''3.6|http://www.wikidata.org/entity/Q3276763;n/a'')) \<and>
   part_value exact_ops (ascii ''3.6|http://www.wikidata.org/entity/Q3276763'') \<noteq> None \<and>
   parse_freqs_to_str exact_ops (ascii ''3.6|http://www.wikidata.org/entity/Q3276763;n/a'') =
     parse_freqs_to_str exact_ops
       (join [59] (filter (\<lambda>q. part_value exact_ops q \<noteq> None)
          (split_on 59 (ascii ''3.6|http://www.wikidata.org/entity/Q3276763;n/a''))))"
proof -
  have h1: "ascii ''3.6|http://www.wikidata.org/entity/Q3276763'' \<in>
     set (split_on 59 (ascii ''3.6|http://www.wikidata.org/entity/Q3276763;n/a''))"
    by (simp add: split_3_6_na)
  have h2: "part_value exact_ops (ascii ''3.6|http://www.wikidata.org/entity/Q3276763'') \<noteq> None"
    by (simp add: part_value_3_6)
  show ?thesis
    using h1 h2 parse_freqs_to_str_parsed [OF h1 h2] by blast
qed

text \<open>
  C4 as stated: two or more distinct parsed values are rendered as the minimum and the
  maximum joined by an en-dash, both unit-suffixed. On the example of the function's own
  docstring the output is "2.7" en-dash "3.9GHz": the unit follows the maximum only.
\<close>

theorem parse_freqs_to_str_one_suffix:
  "parse_freqs_to_str exact_ops
     (ascii ''2.7|http://www.wikidata.org/entity/Q3276763;3.9|http://www.wikidata.org/entity/Q3276763'') \<noteq>
   ascii ''2.7GHz'' @ [8211] @ ascii ''3.9GHz''"
  by (simp only: parse_freqs_example) (simp add: ascii_def)

text \<open>
  C4, amended: for every frequency input with two parsed entries whose values differ
  after rounding to three decimals, the formatter returns the trimmed minimum and the
  trimmed maximum of the rounded values of the parsed entries, joined by an en-dash and
  followed by one "GHz"; no other value is represented.
\<close>

theorem parse_freqs_to_str_range:
  assumes "p1 \<in> set (split_on 59 raw)" "part_value ops p1 = Some a"
    and "p2 \<in> set (split_on 59 raw)" "part_value ops p2 = Some b"
    and "fval (py_round3 ops a) \<noteq> fval (py_round3 ops b)"
  shows "\<exists>lo hi.
           lo \<in> py_round3 ops ` {v. \<exists>q \<in> set (split_on 59 raw). part_value ops q = Some v} \<and>
           hi \<in> py_round3 ops ` {v. \<exists>q \<in> set (split_on 59 raw). part_value ops q = Some v} \<and>
           (\<forall>v \<in> py_round3 ops ` {v. \<exists>q \<in> set (split_on 59 raw). part_value ops q = Some v}.
              fval lo \<le> fval v \<and> fval v \<le> fval hi) \<and>
           parse_freqs_to_str ops raw =
             trim_float lo @ [8211] @ trim_float hi @ ascii ''GHz''"
proof -
  let ?R = "py_round3 ops ` {v. \<exists>q \<in> set (split_on 59 raw). part_value ops q = Some v}"
  define vs where "vs = sorted_floats (py_set (map (py_round3 ops)
                   (List.map_filter (part_value ops) (split_on 59 raw))))"
  have pv: "part_value ops p1 \<noteq> None" using assms(2) by simp
  note core = freq_core [OF assms(1) pv, folded vs_def]
  have "fval (py_round3 ops a) \<in> fval ` set vs" "fval (py_round3 ops b) \<in> fval ` set vs"
    using assms(1-4) unfolding core(6) by blast+
  then obtain x y where xy: "x \<in> set vs" "y \<in> set vs" "fval x \<noteq> fval y"
    using assms(5) by (metis imageE)
  have len: "length vs \<noteq> 1"
  proof
    assume "length vs = 1"
    then obtain z where "vs = [z]" by (cases vs) auto
    then show False using xy by simp
  qed
  have out: "parse_freqs_to_str ops raw =
      trim_float (hd vs) @ [8211] @ trim_float (last vs) @ ascii ''GHz''"
    using core(1) len by simp
  have bounds: "\<forall>v \<in> ?R. fval (hd vs) \<le> fval v \<and> fval v \<le> fval (last vs)"
  proof
    fix v assume "v \<in> ?R"
    then have "fval v \<in> fval ` set vs" unfolding core(6) by blast
    then obtain w where w: "w \<in> set vs" "fval w = fval v" by auto
    show "fval (hd vs) \<le> fval v \<and> fval v \<le> fval (last vs)"
      using sorted_hd_last [OF core(3) w(1)] w(2) by simp
  qed
  have "hd vs \<in> ?R" "last vs \<in> ?R"
    using core(2,5) by (auto dest: hd_in_set last_in_set)
  then show ?thesis using bounds out by blast
qed

text \<open>The docstring example: 2.7 GHz and 3.9 GHz.\<close>

theorem parse_freqs_to_str_range_witness:
  "ascii ''2.7|http://www.wikidata.org/entity/Q3276763'' \<in>
     set (split_on 59 (ascii ''2.7|http://www.wikidata.org/entity/Q3276763;3.9|http://www.wikidata.org/entity/Q3276763'')) \<and>
   part_value exact_ops (ascii ''2.7|http://www.wikidata.org/entity/Q3276763'') = Some (Num (27 / 10)) \<and>
   ascii ''3.9|http://www.wikidata.org/entity/Q3276763'' \<in>
     set (split_on 59 (ascii ''2.7|http://www.wikidata.org/entity/Q3276763;3.9|http://www.wikidata.org/entity/Q3276763'')) \<and>
   part_value exact_ops (ascii ''3.9|http://www.wikidata.org/entity/Q3276763'') = Some (Num (39 / 10)) \<and>
   fval (py_round3 exact_ops (Num (27 / 10))) \<noteq> fval (py_round3 exact_ops (Num (39 / 10))) \<and>
   (\<exists>lo hi.
      parse_freqs_to_str exact_ops
        (ascii ''2.7|http://www.wikidata.org/entity/Q3276763;3.9|http://www.wikidata.org/entity/Q3276763'') =
      trim_float lo @ [8211] @ trim_float hi @ ascii ''GHz'')"
proof -
  have h1: "ascii ''2.7|http://www.wikidata.org/entity/Q3276763'' \<in>
     set (split_on 59 (ascii ''2.7|http://www.wikidata.org/entity/Q3276763;3.9|http://www.wikidata.org/entity/Q3276763''))"
    by (simp add: split_2_7_3_9)
  have h3: "ascii ''3.9|http://www.wikidata.org/entity/Q3276763'' \<in>
     set (split_on 59 (ascii ''2.7|http://www.wikidata.org/entity/Q3276763;3.9|http://www.wikidata.org/entity/Q3276763''))"
    by (simp add: split_2_7_3_9)
  have h5: "fval (py_round3 exact_ops (Num (27 / 10))) \<noteq> fval (py_round3 exact_ops (Num (39 / 10)))"
    by (simp add: round3_exact_27 round3_exact_39 fval_def)
  show ?thesis
    using h1 h3 h5 part_value_2_7 part_value_3_9
      parse_freqs_to_str_range [OF h1 part_value_2_7 h3 part_value_3_9 h5]
    by blast
qed

text \<open>
  C5 as stated: when no entry parses and the input is empty, the formatter returns an
  "unknown" marker. It returns the one-character string "?", as its docstring says.
\<close>

theorem parse_freqs_to_str_empty_not_unknown:
  "parse_freqs_to_str exact_ops [] \<noteq> ascii ''unknown''"
  by (simp add: parse_freqs_to_str_def ascii_def)

text \<open>
  C5, amended: for every frequency input in which no entry parses, the formatter returns
  the input string verbatim when the input is not empty, and the string "?" when it is
  empty.
\<close>

theorem parse_freqs_to_str_nothing_parsed:
  "(\<forall>p \<in> set (split_on 59 raw). part_value ops p = None) \<longrightarrow>
     parse_freqs_to_str ops raw = (if raw = [] then [63] else raw)"
  by (simp add: parse_freqs_to_str_eq map_filter_eq_Nil_iff Let_def)

lemma split_5_Hz_foo: "split_on 59 (ascii ''5|Hz;foo'') = [ascii ''5|Hz'', ascii ''foo'']"
  by (simp add: ascii_def)

lemma part_value_5_Hz: "part_value exact_ops (ascii ''5|Hz'') = None"
  by (simp add: part_value_def ascii_def strip_nonblank is_space_def exact_ops_def
      exact_float_def UNIT_TO_GHZ_def)

lemma part_value_foo: "part_value exact_ops (ascii ''foo'') = None"
  by (simp add: part_value_def ascii_def)

text \<open>The empty input, and the input "5|Hz;foo" with an unknown unit and an entry without a bar.\<close>

theorem parse_freqs_to_str_nothing_parsed_witness:
  "split_on 59 [] = [[]] \<and> part_value exact_ops [] = None \<and>
   parse_freqs_to_str exact_ops [] = [63] \<and>
   split_on 59 (ascii ''5|Hz;foo'') = [ascii ''5|Hz'', ascii ''foo''] \<and>
   part_value exact_ops (ascii ''5|Hz'') = None \<and>
   part_value exact_ops (ascii ''foo'') = None \<and>
   parse_freqs_to_str exact_ops (ascii ''5|Hz;foo'') = ascii ''5|Hz;foo''"
proof -
  have h1: "\<forall>p \<in> set (split_on 59 []). part_value exact_ops p = None"
    by (simp add: blank_part_value)
  have h2: "\<forall>p \<in> set (split_on 59 (ascii ''5|Hz;foo'')). part_value exact_ops p = None"
    by (simp add: split_5_Hz_foo part_value_5_Hz part_value_foo)
  have ne: "ascii ''5|Hz;foo'' \<noteq> []" by (simp add: ascii_def)
  show ?thesis
    using h1 h2 ne parse_freqs_to_str_nothing_parsed [of "[]" exact_ops]
      parse_freqs_to_str_nothing_parsed [of "ascii ''5|Hz;foo''" exact_ops]
    by (simp add: split_5_Hz_foo part_value_5_Hz part_value_foo blank_part_value)
qed

section \<open>The GPU pipeline on examples\<close>

text \<open>Attributes are ordered as raw strings: "10GB" comes before "2GB".\<close>

lemma raw_string_order: "ascii ''10GB'' < ascii ''2GB''"
  by (simp add: ascii_def)

lemma build_unique_sorted_rows_example:
  "am_atgpu_build_unique_sorted_rows ascii_lower
     [\<lparr>name = ascii ''b'', memory_capacity = ascii ''2GB'', memory_type = ascii ''G''\<rparr>,
      \<lparr>name = ascii ''A'', memory_capacity = ascii ''4GB'', memory_type = ascii ''G''\<rparr>,
      \<lparr>name = ascii ''b'', memory_capacity = ascii ''10GB'', memory_type = ascii ''G''\<rparr>,
      \<lparr>name = ascii ''b'', memory_capacity = ascii ''2GB'', memory_type = ascii ''G''\<rparr>] =
     [\<lparr>name = ascii ''A'', memory_capacity = ascii ''4GB'', memory_type = ascii ''G''\<rparr>,
      \<lparr>name = ascii ''b'', memory_capacity = ascii ''10GB'', memory_type = ascii ''G''\<rparr>,
      \<lparr>name = ascii ''b'', memory_capacity = ascii ''2GB'', memory_type = ascii ''G''\<rparr>]"
  by (simp add: am_atgpu_build_unique_sorted_rows_def setdefault_def row_key_def sort_key_of_def
      ascii_lower_def ascii_def less_eq_prod_def)

text \<open>
  The two records of the end-to-end example: the GeForce RTX 4090 gives the one line
  of the output, and the Tegra X1 is excluded.
\<close>

lemma nvgpu_fmt_24: "nvgpu_format_memory_capacity (Some (Finite 24)) = Inr (ascii ''24GB'')"
proof -
  have "\<bar>24 - rat_of_int 24\<bar> < float_1e_9" by (simp add: float_1e_9_def)
  then show ?thesis
    using am_fmt_near [of 24 24]
    by (simp add: nvgpu_format_is_am_atgpu_format str_int_def) (simp add: ascii_def)
qed

lemma nvgpu_fmt_4: "nvgpu_format_memory_capacity (Some (Finite 4)) = Inr (ascii ''4GB'')"
proof -
  have "\<bar>4 - rat_of_int 4\<bar> < float_1e_9" by (simp add: float_1e_9_def)
  then show ?thesis
    using am_fmt_near [of 4 4]
    by (simp add: nvgpu_format_is_am_atgpu_format str_int_def) (simp add: ascii_def)
qed

lemma rtx_row:
  "nvgpu_row_from_spec
     \<lparr>spec_manufacturer = ascii ''NVIDIA'', spec_name = Some (ascii ''GeForce RTX 4090''),
      spec_memory_size_gb = Some (Finite 24), spec_memory_type = Some (ascii ''GDDR6X'')\<rparr> =
   Inr \<lparr>name = ascii ''GeForce RTX 4090'', memory_capacity = ascii ''24GB'',
        memory_type = ascii ''GDDR6X''\<rparr>"
  by (simp add: nvgpu_row_from_spec_def nvgpu_fmt_24 str_or_def)
    (simp add: ascii_def strip_def is_space_def)

lemma tegra_row:
  "nvgpu_row_from_spec
     \<lparr>spec_manufacturer = ascii ''NVIDIA'', spec_name = Some (ascii ''Tegra X1''),
      spec_memory_size_gb = Some (Finite 4), spec_memory_type = Some (ascii ''LPDDR4'')\<rparr> =
   Inr \<lparr>name = ascii ''Tegra X1'', memory_capacity = ascii ''4GB'',
        memory_type = ascii ''LPDDR4''\<rparr>"
  by (simp add: nvgpu_row_from_spec_def nvgpu_fmt_4 str_or_def)
    (simp add: ascii_def strip_def is_space_def)

lemma rtx_not_console:
  "\<not> nvgpu_is_console_gpu_name ascii_fold (ascii ''GeForce RTX 4090'')"
  by (simp add: nvgpu_is_console_gpu_name_def nvgpu_console_markers_def casefold_def
      ascii_fold_def ascii_def)

lemma tegra_console: "nvgpu_is_console_gpu_name ascii_fold (ascii ''Tegra X1'')"
  by (simp add: nvgpu_is_console_gpu_name_def nvgpu_console_markers_def casefold_def
      ascii_fold_def ascii_def)

lemma end_to_end_rows:
  "iter_nvidia_gpu_rows ascii_fold
     [\<lparr>spec_manufacturer = ascii ''NVIDIA'', spec_name = Some (ascii ''GeForce RTX 4090''),
       spec_memory_size_gb = Some (Finite 24), spec_memory_type = Some (ascii ''GDDR6X'')\<rparr>,
      \<lparr>spec_manufacturer = ascii ''NVIDIA'', spec_name = Some (ascii ''Tegra X1''),
       spec_memory_size_gb = Some (Finite 4), spec_memory_type = Some (ascii ''LPDDR4'')\<rparr>] =
   Inr [\<lparr>name = ascii ''GeForce RTX 4090'', memory_capacity = ascii ''24GB'',
         memory_type = ascii ''GDDR6X''\<rparr>]"
proof -
  have n1: "ascii ''GeForce RTX 4090'' \<noteq> []" and n2: "ascii ''Tegra X1'' \<noteq> []"
    by (simp_all add: ascii_def)
  show ?thesis
    using rtx_not_console tegra_console n1 n2
    by (simp add: rtx_row tegra_row)
qed

lemma end_to_end_text:
  "nvgpu_write_rows fs p
     (nvgpu_build_unique_sorted_rows lower
        [\<lparr>name = ascii ''GeForce RTX 4090'', memory_capacity = ascii ''24GB'',
          memory_type = ascii ''GDDR6X''\<rparr>]) =
   (fs(p \<mapsto> ascii (''\"GeForce RTX 4090\" \"24GB GDDR6X\"'') @ [10]), 1)"
  by (simp add: nvgpu_build_eq nvgpu_write_rows_eq to_line_def) (simp add: ascii_def)

end
